theory Spec2Isabelle
  imports Complex_Main "HOL-Library.AList"
begin

section \<open>The scene component \<open>axee-visuals-3d\<close>\<close>

text \<open>
  A shallow embedding of the class \<open>AxeeVisuals3D\<close> (\<open>src/unnamed/part_000\<close>) and of the
  colour selection of the entity fragment program (\<open>src/ai-entity-shader.ts\<close>).

  Conventions of the embedding.
  \<^item> JavaScript numbers and GLSL floats are modelled as \<^typ>\<open>real\<close>. In the orbits, in
    \<open>orbitSpeed\<close> and in the fragment program, products, sums, \<open>cos\<close> and \<open>sin\<close> are the
    exact ones. In the camera interpolation every operation is followed by the rounding to
    a JavaScript number, a parameter of the frame (\<open>to_double\<close>).
  \<^item> The JavaScript \<open>Map\<close> \<open>planets\<close> is an association list in insertion order:
    \<open>Map.set\<close> is \<^const>\<open>AList.update\<close> (an existing key keeps its place, a new key is
    appended), \<open>Map.delete\<close> is \<^const>\<open>AList.delete\<close>, \<open>Map.get\<close>/\<open>Map.has\<close> are
    \<^const>\<open>map_of\<close>.
  \<^item> A planet group attached to the scene graph is denoted by its id. \<open>createPlanet\<close> puts
    the same group object into the map and into the scene, \<open>removePlanet\<close> takes it out of
    both, so at any moment the group object behind a scene node with id \<open>i\<close> is the one
    the map holds for \<open>i\<close> (lemma \<open>wf_engine\<close> preservation below).
  \<^item> Calls into the browser and into three.js that release or emit something are recorded,
    in order, in the field \<open>trace\<close> of the state.
  \<^item> \<open>Math.random\<close>, the ray caster and \<open>OrbitControls.update\<close> are not part of the
    sources: they are parameters of the functions that call them.
  \<^item> The fields \<open>scene\<close>, \<open>camera\<close>, \<open>renderer\<close>, \<open>composer\<close> and \<open>controls\<close> are assigned
    together by \<open>init\<close>; the flag \<open>ready\<close> says that this has happened. Before that,
    \<open>this.scene\<close> is \<open>undefined\<close> and a call of one of its methods throws a \<open>TypeError\<close>: a
    function that can throw returns an \<open>outcome\<close>, which keeps the state the exception
    leaves behind.
  \<^item> Of what \<open>createPlanet\<close> builds, the model keeps the meshes of a group (each with one
    geometry and one material) and the canvas texture bound to the material of the planet
    mesh; sizes and colours are not modelled. Of the tooltip, \<open>style.display\<close> and
    \<open>textContent\<close> are modelled, its pixel position is not.
\<close>

subsection \<open>Data\<close>

type_synonym vec3 = "real \<times> real \<times> real"

record planet_visualization =
  color1 :: string
  color2 :: string
  atmosphereColor :: string
  hasRings :: bool

record PlanetData =
  celestial_body_id :: string
  planetName :: string
  planetType :: string
  visualization :: planet_visualization

text \<open>The meshes \<open>createPlanet\<close> adds to a group: \<open>planetMesh\<close>, \<open>atmosphereMesh\<close>, \<open>ringMesh\<close>.\<close>

datatype part = PlanetMesh | AtmosphereMesh | RingMesh

text \<open>
  A \<open>THREE.Group\<close> made by \<open>createPlanet\<close>: its \<open>name\<close>, its \<open>userData\<close> fields, its
  position, its rotation about the y axis, its child meshes, and the child meshes whose
  material has a texture as its \<open>map\<close>.
\<close>

record planet_group =
  name :: string
  userData_id :: string
  orbitalRadius :: real
  orbitSpeed :: real
  position :: vec3
  rotation_y :: real
  children :: "part list"
  textured :: "part list"

text \<open>The children of the scene, in the order \<open>init\<close> and \<open>createPlanet\<close> add them.\<close>

datatype scene_node =
    Starfield | Star | AiEntity | DataTrails | NeuralNetwork | PointLight | AmbientLight
  | PlanetGroup string

text \<open>Objects that own a geometry and a material.\<close>

datatype resource_owner =
    StarMesh | AiEntityMesh | NeuralNetworkLines | StarfieldPoints
  | MeshOf string part

datatype effect =
    SceneAdd scene_node
  | SceneRemove scene_node
  | GeometryDispose resource_owner
  | MaterialDispose resource_owner
  | TextureDispose resource_owner
  | RemoveWindowListener string
  | RemoveListener string
  | CancelAnimationFrame
  | TrackStop nat
  | AudioContextClose
  | ControlsDispose
  | RendererDispose
  | PlanetSelected string

record tooltip =
  display :: string
  textContent :: string

record engine =
  planets :: "(string \<times> planet_group) list"
  scene :: "scene_node list"
  planetsData :: "PlanetData list"
  selectedPlanetId :: "string option"
  hoveredPlanetId :: "string option"
  targetPosition :: vec3
  targetLookAt :: vec3
  camera_position :: vec3
  controls_target :: vec3
  controls_autoRotate :: bool
  cursor :: string
  tooltipElement :: "tooltip option"
  isListening :: bool
  isSpeaking :: bool
  uTime :: real
  uState :: int
  micStream :: "nat option"
  audioContext :: bool
  ready :: bool
  random_draws :: nat
  trace :: "effect list"

subsection \<open>The scene registry: \<open>createPlanet\<close>, \<open>removePlanet\<close>, \<open>updatePlanets\<close>\<close>

text \<open>
  A call either returns or throws; in both cases the component is left in a state.
\<close>

datatype error = TypeError

datatype outcome = Returned engine | Threw error engine

fun state_of :: "outcome \<Rightarrow> engine" where
  "state_of (Returned st) = st"
| "state_of (Threw e st) = st"

text \<open>
  The group \<open>createPlanet(data, index)\<close> builds before it registers it: planet mesh (its
  material has the canvas texture as \<open>map\<close>), atmosphere mesh, ring mesh when \<open>hasRings\<close>,
  \<open>orbitalRadius = 15 + index * 8\<close>, \<open>orbitSpeed = 0.1 + Math.random() * 0.1\<close>,
  \<open>position.x = orbitalRadius\<close>. The argument \<open>r\<close> is the value \<open>Math.random()\<close> returned.
\<close>

definition build_group :: "real \<Rightarrow> PlanetData \<Rightarrow> nat \<Rightarrow> planet_group" where
  "build_group r d index =
     (let radius = 15 + real index * 8
      in \<lparr> name = planetName d,
           userData_id = celestial_body_id d,
           orbitalRadius = radius,
           orbitSpeed = 0.1 + r * 0.1,
           position = (radius, 0, 0),
           rotation_y = 0,
           children = [PlanetMesh, AtmosphereMesh] @
                        (if hasRings (visualization d) then [RingMesh] else []),
           textured = [PlanetMesh] \<rparr>)"

text \<open>
  \<open>createPlanet(data, index)\<close>. The parameter \<open>rnd\<close> gives the value of the \<open>k\<close>-th call of
  \<open>Math.random\<close>. The last two statements are \<open>this.planets.set(id, planetGroup)\<close> and
  \<open>this.scene.add(planetGroup)\<close>: before \<open>init\<close> the first one is done and the second one
  throws.
\<close>

definition createPlanet :: "(nat \<Rightarrow> real) \<Rightarrow> PlanetData \<Rightarrow> nat \<Rightarrow> engine \<Rightarrow> outcome" where
  "createPlanet rnd d index st =
     (let planetGroup = build_group (rnd (random_draws st)) d index;
          st1 = st \<lparr> planets := AList.update (celestial_body_id d) planetGroup (planets st),
                     random_draws := Suc (random_draws st) \<rparr>
      in if ready st
         then Returned (st1 \<lparr> scene := scene st @ [PlanetGroup (celestial_body_id d)],
                              trace := trace st @ [SceneAdd (PlanetGroup (celestial_body_id d))] \<rparr>)
         else Threw TypeError st1)"

text \<open>
  The traversal of a group in \<open>removePlanet\<close> and in \<open>disconnectedCallback\<close>: the group itself
  is no mesh, each child mesh has its geometry and then its material disposed. No texture
  is disposed.
\<close>

definition dispose_meshes :: "string \<Rightarrow> planet_group \<Rightarrow> effect list" where
  "dispose_meshes i g =
     concat (map (\<lambda>p. [GeometryDispose (MeshOf i p), MaterialDispose (MeshOf i p)]) (children g))"

text \<open>
  \<open>removePlanet(id)\<close>. When the map has the id, the first statement is
  \<open>this.scene.remove(planetGroup)\<close>: before \<open>init\<close> it throws and nothing has changed.
\<close>

definition removePlanet :: "string \<Rightarrow> engine \<Rightarrow> outcome" where
  "removePlanet i st =
     (case map_of (planets st) i of
        None \<Rightarrow> Returned st
      | Some planetGroup \<Rightarrow>
          if ready st
          then Returned
                 (st \<lparr> scene := remove1 (PlanetGroup i) (scene st),
                       trace := trace st @ [SceneRemove (PlanetGroup i)] @ dispose_meshes i planetGroup,
                       planets := AList.delete i (planets st) \<rparr>)
          else Threw TypeError st)"

text \<open>
  \<open>updatePlanets\<close>. The first loop runs over the keys of the map while \<open>removePlanet\<close> deletes
  the key just visited; a JavaScript \<open>Map\<close> iterator still visits every other key, so the
  loop runs over the keys the map had when the loop began. The second loop is \<open>forEach\<close>
  with the element and its index. An exception ends the loop and the function.
\<close>

fun remove_old :: "string list \<Rightarrow> string list \<Rightarrow> engine \<Rightarrow> outcome" where
  "remove_old currentPlanetIds [] st = Returned st"
| "remove_old currentPlanetIds (i # keys) st =
     (if i \<notin> set currentPlanetIds
      then (case removePlanet i st of
              Returned st' \<Rightarrow> remove_old currentPlanetIds keys st'
            | Threw e st' \<Rightarrow> Threw e st')
      else remove_old currentPlanetIds keys st)"

fun add_new :: "(nat \<Rightarrow> real) \<Rightarrow> (nat \<times> PlanetData) list \<Rightarrow> engine \<Rightarrow> outcome" where
  "add_new rnd [] st = Returned st"
| "add_new rnd ((index, d) # indexed) st =
     (if map_of (planets st) (celestial_body_id d) = None
      then (case createPlanet rnd d index st of
              Returned st' \<Rightarrow> add_new rnd indexed st'
            | Threw e st' \<Rightarrow> Threw e st')
      else add_new rnd indexed st)"

definition updatePlanets :: "(nat \<Rightarrow> real) \<Rightarrow> engine \<Rightarrow> outcome" where
  "updatePlanets rnd st =
     (let currentPlanetIds = map celestial_body_id (planetsData st)
      in case remove_old currentPlanetIds (map fst (planets st)) st of
           Returned st' \<Rightarrow> add_new rnd (enumerate 0 (planetsData st)) st'
         | Threw e st' \<Rightarrow> Threw e st')"

text \<open>
  \<open>willUpdate\<close> when the property \<open>planetsData\<close> has been set to a new snapshot: the state
  the component is in afterwards, whether \<open>updatePlanets\<close> returned or threw.
\<close>

definition reconcile :: "(nat \<Rightarrow> real) \<Rightarrow> PlanetData list \<Rightarrow> engine \<Rightarrow> engine" where
  "reconcile rnd snapshot st = state_of (updatePlanets rnd (st \<lparr> planetsData := snapshot \<rparr>))"

subsection \<open>Vectors\<close>

text \<open>
  \<open>Vector3.add\<close>, and \<open>Vector3.lerp\<close> of three.js, which does
  \<open>this.x += (v.x - this.x) * alpha\<close> on each coordinate. The difference, the product and
  the sum are JavaScript numbers: \<open>fl\<close> is the rounding of an exact result to the number
  the operation returns.
\<close>

fun vec_add :: "vec3 \<Rightarrow> vec3 \<Rightarrow> vec3" where
  "vec_add (x, y, z) (x', y', z') = (x + x', y + y', z + z')"

definition lerp_coordinate :: "(real \<Rightarrow> real) \<Rightarrow> real \<Rightarrow> real \<Rightarrow> real \<Rightarrow> real" where
  "lerp_coordinate fl x vx alpha = fl (x + fl (fl (vx - x) * alpha))"

fun lerp :: "(real \<Rightarrow> real) \<Rightarrow> vec3 \<Rightarrow> vec3 \<Rightarrow> real \<Rightarrow> vec3" where
  "lerp fl (x, y, z) (vx, vy, vz) alpha =
     (lerp_coordinate fl x vx alpha, lerp_coordinate fl y vy alpha, lerp_coordinate fl z vz alpha)"

text \<open>
  One camera interpolation step of \<open>_animate\<close>, on a pair (position, look-at):
  \<open>camera.position.lerp(targetPosition, 0.05)\<close> and \<open>controls.target.lerp(targetLookAt, 0.05)\<close>.
  The literal \<open>0.05\<close> is the JavaScript number nearest to it.
\<close>

definition camera_lerp :: "(real \<Rightarrow> real) \<Rightarrow> vec3 \<times> vec3 \<Rightarrow> vec3 \<times> vec3 \<Rightarrow> vec3 \<times> vec3" where
  "camera_lerp fl current commanded =
     (lerp fl (fst current) (fst commanded) (fl 0.05),
      lerp fl (snd current) (snd commanded) (fl 0.05))"








subsection \<open>Selection and click\<close>

text \<open>JavaScript truthiness of a value of type \<open>string | null\<close>.\<close>

definition truthy :: "string option \<Rightarrow> bool" where
  "truthy v = (case v of None \<Rightarrow> False | Some s \<Rightarrow> s \<noteq> [])"

definition focusOnSelectedPlanet :: "engine \<Rightarrow> engine" where
  "focusOnSelectedPlanet st =
     (if \<not> ready st then st
      else
        let st1 = st \<lparr> controls_autoRotate := \<not> truthy (selectedPlanetId st) \<rparr>
        in if truthy (selectedPlanetId st)
           then (case map_of (planets st1) (the (selectedPlanetId st)) of
                   Some planetGroup \<Rightarrow>
                     st1 \<lparr> targetPosition := vec_add (position planetGroup) (0, 3, 10),
                           targetLookAt := position planetGroup \<rparr>
                 | None \<Rightarrow> st1)
           else st1 \<lparr> targetPosition := (0, 15, 40), targetLookAt := (0, 0, 0) \<rparr>)"

definition onCanvasClick :: "engine \<Rightarrow> engine" where
  "onCanvasClick st =
     (if truthy (hoveredPlanetId st)
      then st \<lparr> trace := trace st @ [PlanetSelected (the (hoveredPlanetId st))] \<rparr>
      else st)"

subsection \<open>The frame callback \<open>_animate\<close>\<close>

text \<open>
  What \<open>intersects[0].object.parent\<close> is: \<open>null\<close>, or an object with a \<open>name\<close> and possibly a
  \<open>userData.id\<close>.
\<close>

record hit_parent =
  parent_id :: "string option"
  parent_name :: string

text \<open>
  What the environment contributes to one frame: the two clock readings, the rounding of an
  exact result to a JavaScript number, the effect of \<open>controls.update()\<close> on camera position
  and controls target, and the ray caster (\<open>setFromCamera\<close> with the pointer and the camera,
  then \<open>intersectObjects\<close>) as a function of the candidate objects, returning for each
  intersection the parent of the object hit.
\<close>

record frame =
  delta :: real
  elapsed :: real
  to_double :: "real \<Rightarrow> real"
  controls_update :: "vec3 \<times> vec3 \<Rightarrow> vec3 \<times> vec3"
  intersectObjects :: "planet_group list \<Rightarrow> hit_parent option list"

definition animate_group :: "real \<Rightarrow> real \<Rightarrow> planet_group \<Rightarrow> planet_group" where
  "animate_group dt t g =
     g \<lparr> rotation_y := rotation_y g + dt * 0.5,
         position := (cos (t * orbitSpeed g) * orbitalRadius g, 0,
                      sin (t * orbitSpeed g) * orbitalRadius g) \<rparr>"

definition animate_planets :: "real \<Rightarrow> real \<Rightarrow> engine \<Rightarrow> engine" where
  "animate_planets dt t st =
     st \<lparr> planets := map (\<lambda>(i, g). (i, animate_group dt t g)) (planets st) \<rparr>"

text \<open>
  The camera part of \<open>_animate\<close>: the two interpolations, then \<open>controls.update()\<close> on the
  interpolated pose.
\<close>

definition interpolated :: "frame \<Rightarrow> engine \<Rightarrow> vec3 \<times> vec3" where
  "interpolated f st =
     camera_lerp (to_double f) (camera_position st, controls_target st)
                               (targetPosition st, targetLookAt st)"

definition animate_camera :: "frame \<Rightarrow> engine \<Rightarrow> engine" where
  "animate_camera f st =
     (let updated = controls_update f (interpolated f st)
      in st \<lparr> camera_position := fst updated, controls_target := snd updated \<rparr>)"

text \<open>The objects handed to \<open>intersectObjects\<close>: \<open>Array.from(this.planets.values())\<close>.\<close>

definition hit_candidates :: "engine \<Rightarrow> planet_group list" where
  "hit_candidates st = map snd (planets st)"

text \<open>The group under the pointer, if the three tests of the hover logic pass.\<close>

definition hovered_group :: "hit_parent option list \<Rightarrow> engine \<Rightarrow> hit_parent option" where
  "hovered_group intersects st =
     (case intersects of
        [] \<Rightarrow> None
      | first # _ \<Rightarrow>
          (case first of
             None \<Rightarrow> None
           | Some intersectedObject \<Rightarrow>
               if truthy (parent_id intersectedObject) \<and>
                  map_of (planets st) (the (parent_id intersectedObject)) \<noteq> None
               then Some intersectedObject else None))"

definition hover_logic :: "hit_parent option list \<Rightarrow> engine \<Rightarrow> engine" where
  "hover_logic intersects st =
     (case hovered_group intersects st of
        Some intersectedObject \<Rightarrow>
          st \<lparr> hoveredPlanetId := parent_id intersectedObject,
               cursor := ''pointer'',
               tooltipElement :=
                 map_option (\<lambda>t. t \<lparr> display := ''block'',
                                      textContent := parent_name intersectedObject \<rparr>)
                            (tooltipElement st) \<rparr>
      | None \<Rightarrow>
          st \<lparr> hoveredPlanetId := None,
               cursor := ''auto'',
               tooltipElement :=
                 map_option (\<lambda>t. t \<lparr> display := ''none'' \<rparr>) (tooltipElement st) \<rparr>)"

definition animate_entity :: "real \<Rightarrow> engine \<Rightarrow> engine" where
  "animate_entity t st =
     st \<lparr> uTime := t,
          uState := (if isListening st then 1 else if isSpeaking st then 2 else 0) \<rparr>"

definition intersects :: "frame \<Rightarrow> engine \<Rightarrow> hit_parent option list" where
  "intersects f st = intersectObjects f (hit_candidates st)"

text \<open>
  \<open>_animate\<close>: the early return when \<open>init\<close> has not run, the planets, the camera, the hover
  logic on the moved planets and camera, the uniforms of the entity. (Scheduling the next
  frame and \<open>composer.render()\<close> leave the state as it is.)
\<close>

definition animate :: "frame \<Rightarrow> engine \<Rightarrow> engine" where
  "animate f st =
     (if \<not> ready st then st
      else
        let st1 = animate_planets (delta f) (elapsed f) st;
            st2 = animate_camera f st1;
            st3 = hover_logic (intersects f st2) st2
        in animate_entity (elapsed f) st3)"

text \<open>The state in which the hover logic of a frame runs.\<close>

definition before_hover :: "frame \<Rightarrow> engine \<Rightarrow> engine" where
  "before_hover f st = animate_camera f (animate_planets (delta f) (elapsed f) st)"

subsection \<open>Teardown: \<open>disconnectedCallback\<close>\<close>

text \<open>
  What the callback of \<open>scene.traverse\<close> does at a child of the scene. The test is
  \<open>instanceof THREE.Mesh || instanceof THREE.LineSegments\<close>: the starfield is a
  \<open>THREE.Points\<close>, the data trails are an empty \<open>THREE.Group\<close>, the lights own nothing.
\<close>

definition dispose_node :: "engine \<Rightarrow> scene_node \<Rightarrow> effect list" where
  "dispose_node st n =
     (case n of
        Star \<Rightarrow> [GeometryDispose StarMesh, MaterialDispose StarMesh]
      | AiEntity \<Rightarrow> [GeometryDispose AiEntityMesh, MaterialDispose AiEntityMesh]
      | NeuralNetwork \<Rightarrow> [GeometryDispose NeuralNetworkLines, MaterialDispose NeuralNetworkLines]
      | PlanetGroup i \<Rightarrow>
          (case map_of (planets st) i of Some g \<Rightarrow> dispose_meshes i g | None \<Rightarrow> [])
      | _ \<Rightarrow> [])"

text \<open>The calls of \<open>disconnectedCallback\<close>, in the order of the source.\<close>

definition teardown_effects :: "engine \<Rightarrow> effect list" where
  "teardown_effects st =
     [RemoveWindowListener ''resize'', RemoveListener ''pointermove'', RemoveListener ''click'',
      CancelAnimationFrame]
     @ (case micStream st of None \<Rightarrow> [] | Some tracks \<Rightarrow> map TrackStop [0..<tracks])
     @ (if audioContext st then [AudioContextClose] else [])
     @ (if ready st
        then [ControlsDispose] @ concat (map (dispose_node st) (scene st)) @ [RendererDispose]
        else [])"

definition disconnectedCallback :: "engine \<Rightarrow> engine" where
  "disconnectedCallback st = st \<lparr> trace := trace st @ teardown_effects st \<rparr>"

subsection \<open>The component as a transition system\<close>

text \<open>The children \<open>init\<close> adds to the scene, in its order.\<close>

definition shared_nodes :: "scene_node list" where
  "shared_nodes = [Starfield, Star, AiEntity, DataTrails, NeuralNetwork, PointLight, AmbientLight]"

text \<open>
  The state when \<open>init\<close> has made the scene, the camera at \<open>(0, 15, 40)\<close>, the renderer, the
  controls and the composer, just before it calls \<open>_animate\<close> for the first time;
  \<open>tooltipElement\<close> is assigned by \<open>firstUpdated\<close> only after \<open>init\<close> has returned.
\<close>

definition init_state :: engine where
  "init_state =
     \<lparr> planets = [], scene = shared_nodes, planetsData = [],
       selectedPlanetId = None, hoveredPlanetId = None,
       targetPosition = (0, 0, 0), targetLookAt = (0, 0, 0),
       camera_position = (0, 15, 40), controls_target = (0, 0, 0),
       controls_autoRotate = True, cursor = [], tooltipElement = None,
       isListening = False, isSpeaking = False, uTime = 0, uState = 0,
       micStream = None, audioContext = False, ready = True,
       random_draws = 0, trace = [] \<rparr>"

datatype event =
    SetPlanetsData "PlanetData list"
  | SetSelectedPlanetId "string option"
  | SetInteraction bool bool
  | SetMicStream "nat option"
  | FirstUpdated
  | AnimationFrame frame
  | Click
  | Disconnect

text \<open>
  \<open>willUpdate\<close> for a changed property, the end of \<open>firstUpdated\<close> (the tooltip element is
  found; its inline \<open>style.display\<close> is still empty, the style sheet hides it), one run of
  \<open>_animate\<close>, a click, and the teardown.
\<close>

fun step :: "(nat \<Rightarrow> real) \<Rightarrow> event \<Rightarrow> engine \<Rightarrow> engine" where
  "step rnd (SetPlanetsData snapshot) st = reconcile rnd snapshot st"
| "step rnd (SetSelectedPlanetId sel) st = focusOnSelectedPlanet (st \<lparr> selectedPlanetId := sel \<rparr>)"
| "step rnd (SetInteraction listening speaking) st =
     st \<lparr> isListening := listening, isSpeaking := speaking \<rparr>"
| "step rnd (SetMicStream m) st = st \<lparr> micStream := m \<rparr>"
| "step rnd FirstUpdated st =
     st \<lparr> tooltipElement := Some \<lparr> display = [], textContent = [] \<rparr> \<rparr>"
| "step rnd (AnimationFrame f) st = animate f st"
| "step rnd Click st = onCanvasClick st"
| "step rnd Disconnect st = disconnectedCallback st"

definition run :: "(nat \<Rightarrow> real) \<Rightarrow> event list \<Rightarrow> engine \<Rightarrow> engine" where
  "run rnd evs st = fold (step rnd) evs st"

text \<open>The ids of the live bodies.\<close>

definition live_ids :: "engine \<Rightarrow> string set" where
  "live_ids st = fst ` set (planets st)"

text \<open>
  The orbit constants of a body, and whether a body is live in every state of a run.
\<close>

definition orbit_constants :: "engine \<Rightarrow> string \<Rightarrow> (real \<times> real) option" where
  "orbit_constants st i =
     map_option (\<lambda>g. (orbitalRadius g, orbitSpeed g)) (map_of (planets st) i)"

fun stays_live :: "(nat \<Rightarrow> real) \<Rightarrow> string \<Rightarrow> event list \<Rightarrow> engine \<Rightarrow> bool" where
  "stays_live rnd i [] st = (map_of (planets st) i \<noteq> None)"
| "stays_live rnd i (e # evs) st =
     (map_of (planets st) i \<noteq> None \<and> stays_live rnd i evs (step rnd e st))"

text \<open>
  The body an effect acts on, for the effects on a planet group or on one of its meshes, and
  the part of a trace that acts on one body.
\<close>

fun body_of :: "effect \<Rightarrow> string option" where
  "body_of (SceneAdd (PlanetGroup i)) = Some i"
| "body_of (SceneRemove (PlanetGroup i)) = Some i"
| "body_of (GeometryDispose (MeshOf i p)) = Some i"
| "body_of (MaterialDispose (MeshOf i p)) = Some i"
| "body_of (TextureDispose (MeshOf i p)) = Some i"
| "body_of _ = None"

definition effects_on :: "string \<Rightarrow> effect list \<Rightarrow> effect list" where
  "effects_on i l = filter (\<lambda>e. body_of e = Some i) l"

text \<open>
  The states the component can be in once \<open>init\<close> has run: the keys of the map are
  distinct, a group carries its key as \<open>userData.id\<close> and the meshes and the texture
  \<open>createPlanet\<close> gave it, the planet groups are the last children of the scene in the order
  of the map, and \<open>hoveredPlanetId\<close> is \<open>null\<close> or a non-empty string.
\<close>

definition wf_group :: "string \<times> planet_group \<Rightarrow> bool" where
  "wf_group e =
     (userData_id (snd e) = fst e \<and>
      (children (snd e) = [PlanetMesh, AtmosphereMesh] \<or>
       children (snd e) = [PlanetMesh, AtmosphereMesh, RingMesh]) \<and>
      textured (snd e) = [PlanetMesh])"

definition wf_engine :: "engine \<Rightarrow> bool" where
  "wf_engine st =
     (ready st \<and>
      distinct (map fst (planets st)) \<and>
      list_all wf_group (planets st) \<and>
      scene st = shared_nodes @ map (\<lambda>e. PlanetGroup (fst e)) (planets st) \<and>
      hoveredPlanetId st \<noteq> Some [])"



subsection \<open>The entity fragment program\<close>

text \<open>
  The part of \<open>main\<close> of the entity fragment shader from the choice of \<open>baseColor\<close> and \<open>pulse\<close>
  to \<open>finalColor\<close>. The values computed before it (\<open>fresnel\<close>, \<open>audioLevel\<close>, \<open>bands\<close>, from the
  varyings and the audio texture) and the value of \<open>rand\<close> enter as parameters.
\<close>

definition baseColor :: "int \<Rightarrow> vec3" where
  "baseColor state =
     (if state = 1 then (0.2, 0.8, 1.0)
      else if state = 2 then (0.2, 1.0, 0.5)
      else (0.1, 0.5, 1.0))"

definition pulse :: "int \<Rightarrow> real \<Rightarrow> real" where
  "pulse state time =
     (if state = 1 then 1.0
      else if state = 2 then 1.0 + sin (time * 8.0) * 0.15
      else 1.0)"

text \<open>GLSL \<open>mix(x, y, a) = x * (1 - a) + y * a\<close>, on one component.\<close>

definition mix :: "real \<Rightarrow> real \<Rightarrow> real \<Rightarrow> real" where
  "mix x y a = x * (1 - a) + y * a"

fun vec_map2 :: "(real \<Rightarrow> real \<Rightarrow> real) \<Rightarrow> vec3 \<Rightarrow> vec3 \<Rightarrow> vec3" where
  "vec_map2 f (x, y, z) (x', y', z') = (f x x', f y y', f z z')"

fun vec_map :: "(real \<Rightarrow> real) \<Rightarrow> vec3 \<Rightarrow> vec3" where
  "vec_map f (x, y, z) = (f x, f y, f z)"

definition unpulsed_color :: "int \<Rightarrow> real \<Rightarrow> real \<Rightarrow> real \<Rightarrow> vec3" where
  "unpulsed_color state fresnel audioLevel bands =
     (let glowColor = vec_map2 (\<lambda>x y. mix x y bands)
                        (vec_map (\<lambda>c. c * 0.5) (baseColor state)) (0.5, 1.0, 1.0);
          glow = vec_map (\<lambda>c. c * (0.2 + audioLevel * 1.5)) glowColor;
          rim = vec_map (\<lambda>c. fresnel * c * (0.5 + audioLevel * 2.0)) (baseColor state)
      in vec_map2 (+) glow rim)"

definition finalColor :: "int \<Rightarrow> real \<Rightarrow> real \<Rightarrow> real \<Rightarrow> real \<Rightarrow> real \<Rightarrow> vec3" where
  "finalColor state time fresnel audioLevel bands noise =
     vec_map (\<lambda>c. c * pulse state time + noise * 0.05)
       (unpulsed_color state fresnel audioLevel bands)"

subsection \<open>Example inputs\<close>

definition planet_a :: PlanetData where
  "planet_a = \<lparr> celestial_body_id = ''A'', planetName = ''Aurelia'', planetType = ''Rocky'',
       visualization = \<lparr> color1 = ''#884422'', color2 = ''#2244aa'',
                         atmosphereColor = ''#88ccff'', hasRings = False \<rparr> \<rparr>"

definition planet_b :: PlanetData where
  "planet_b = \<lparr> celestial_body_id = ''B'', planetName = ''Boreas'', planetType = ''Gas Giant'',
       visualization = \<lparr> color1 = ''#ccaa66'', color2 = ''#664422'',
                         atmosphereColor = ''#ffeecc'', hasRings = True \<rparr> \<rparr>"


text \<open>A source of random numbers that always answers \<open>1/2\<close>.\<close>

definition rnd_half :: "nat \<Rightarrow> real" where
  "rnd_half k = 1 / 2"

text \<open>
  A rounding for the examples: to the nearest multiple of \<open>1/1024\<close>, halves upwards.
\<close>

definition to_grid :: "real \<Rightarrow> real" where
  "to_grid x = of_int \<lfloor>x * 1024 + 1 / 2\<rfloor> / 1024"


text \<open>The component showing planet \<open>A\<close> only.\<close>

definition state_a :: engine where
  "state_a = reconcile rnd_half [planet_a] init_state"

text \<open>The component showing planets \<open>A\<close> and \<open>B\<close>, created from one snapshot.\<close>

definition state_ab :: engine where
  "state_ab = reconcile rnd_half [planet_a, planet_b] init_state"

text \<open>A frame at one second in which the ray hits nothing and the controls change nothing.\<close>

definition frame_miss :: frame where
  "frame_miss = \<lparr> delta = 1 / 60, elapsed = 1, to_double = to_grid,
                   controls_update = (\<lambda>pose. pose),
                   intersectObjects = (\<lambda>candidates. []) \<rparr>"

text \<open>A frame in which the nearest object hit is a mesh of the group of planet \<open>A\<close>.\<close>

definition frame_hit_a :: frame where
  "frame_hit_a = \<lparr> delta = 1 / 60, elapsed = 2, to_double = to_grid,
       controls_update = (\<lambda>pose. pose),
       intersectObjects = (\<lambda>candidates. [Some \<lparr> parent_id = Some ''A'', parent_name = ''Aurelia'' \<rparr>]) \<rparr>"

text \<open>Planet \<open>A\<close> is shown, \<open>firstUpdated\<close> has ended, and a frame has found \<open>A\<close> under the pointer.\<close>

definition hovering_a :: engine where
  "hovering_a = run rnd_half [FirstUpdated, AnimationFrame frame_hit_a] state_a"

text \<open>After that frame, a snapshot without \<open>A\<close> arrives before the next frame.\<close>

definition stale_hover_state :: engine where
  "stale_hover_state = run rnd_half [SetPlanetsData []] hovering_a"





section \<open>The scene registry\<close>

subsection \<open>\<open>createPlanet\<close> and \<open>removePlanet\<close>\<close>

lemma removePlanet_ready:
  "ready st \<Longrightarrow> removePlanet i st = Returned (state_of (removePlanet i st))"
  by (simp add: removePlanet_def split: option.splits)

lemma removePlanet_not_ready: "\<not> ready st \<Longrightarrow> state_of (removePlanet i st) = st"
  by (simp add: removePlanet_def split: option.splits)

lemma ready_removePlanet [simp]: "ready (state_of (removePlanet i st)) = ready st"
  by (simp add: removePlanet_def split: option.splits)

lemma planets_removePlanet:
  "ready st \<Longrightarrow> planets (state_of (removePlanet i st)) = AList.delete i (planets st)"
  by (auto simp: removePlanet_def map_of_eq_None_iff split: option.splits
      intro!: AList.delete_id[symmetric])

lemma map_of_removePlanet:
  "ready st \<Longrightarrow>
   map_of (planets (state_of (removePlanet k st))) i = (if i = k then None else map_of (planets st) i)"
  by (simp add: planets_removePlanet AList.delete_conv')


lemma createPlanet_ready:
  "ready st \<Longrightarrow> createPlanet rnd d index st = Returned (state_of (createPlanet rnd d index st))"
  by (simp add: createPlanet_def Let_def)

lemma ready_createPlanet [simp]: "ready (state_of (createPlanet rnd d index st)) = ready st"
  by (simp add: createPlanet_def Let_def)

lemma planets_createPlanet:
  "planets (state_of (createPlanet rnd d index st)) =
     AList.update (celestial_body_id d) (build_group (rnd (random_draws st)) d index) (planets st)"
  by (simp add: createPlanet_def Let_def)

lemma map_of_createPlanet:
  "map_of (planets (state_of (createPlanet rnd d index st))) i =
     (if i = celestial_body_id d
      then Some (build_group (rnd (random_draws st)) d index)
      else map_of (planets st) i)"
  by (simp add: planets_createPlanet AList.update_conv')


lemma live_ids_map_of: "i \<in> live_ids st \<longleftrightarrow> map_of (planets st) i \<noteq> None"
  by (simp add: live_ids_def map_of_eq_None_iff)

lemma live_ids_createPlanet:
  "live_ids (state_of (createPlanet rnd d index st)) = insert (celestial_body_id d) (live_ids st)"
  by (simp add: live_ids_def planets_createPlanet AList.dom_update)

subsection \<open>The two loops once \<open>init\<close> has run\<close>

lemma remove_old_Cons_ready:
  "ready st \<Longrightarrow> remove_old ids (k # ks) st =
     remove_old ids ks (if k \<notin> set ids then state_of (removePlanet k st) else st)"
  using removePlanet_ready[of st k] by (cases "removePlanet k st") auto

lemma remove_old_returns:
  "ready st \<Longrightarrow> remove_old ids ks st = Returned (state_of (remove_old ids ks st))"
proof (induction ks arbitrary: st)
  case Nil
  then show ?case by simp
next
  case (Cons k ks)
  let ?st1 = "if k \<notin> set ids then state_of (removePlanet k st) else st"
  have "ready ?st1" using Cons.prems by simp
  then show ?case
    unfolding remove_old_Cons_ready[OF Cons.prems] by (rule Cons.IH)
qed

lemma ready_remove_old: "ready st \<Longrightarrow> ready (state_of (remove_old ids ks st))"
proof (induction ks arbitrary: st)
  case Nil
  then show ?case by simp
next
  case (Cons k ks)
  let ?st1 = "if k \<notin> set ids then state_of (removePlanet k st) else st"
  have "ready ?st1" using Cons.prems by simp
  then show ?case
    unfolding remove_old_Cons_ready[OF Cons.prems] by (rule Cons.IH)
qed

lemma planets_remove_old:
  "ready st \<Longrightarrow> planets (state_of (remove_old ids ks st)) =
     filter (\<lambda>e. fst e \<in> set ids \<or> fst e \<notin> set ks) (planets st)"
proof (induction ks arbitrary: st)
  case Nil
  then show ?case by simp
next
  case (Cons k ks)
  let ?st1 = "if k \<notin> set ids then state_of (removePlanet k st) else st"
  have r1: "ready ?st1" using Cons.prems by simp
  show ?case
    unfolding remove_old_Cons_ready[OF Cons.prems] Cons.IH[OF r1]
    using Cons.prems
    by (auto simp: planets_removePlanet AList.delete_eq intro!: filter_cong)
qed

lemma live_ids_remove_old:
  "ready st \<Longrightarrow>
   live_ids (state_of (remove_old ids (map fst (planets st)) st)) = live_ids st \<inter> set ids"
  by (auto simp: live_ids_def planets_remove_old)

lemma map_of_remove_old:
  "ready st \<Longrightarrow> map_of (planets (state_of (remove_old ids ks st))) i =
     (if i \<in> set ids \<or> i \<notin> set ks then map_of (planets st) i else None)"
proof (induction ks arbitrary: st)
  case Nil
  then show ?case by simp
next
  case (Cons k ks)
  let ?st1 = "if k \<notin> set ids then state_of (removePlanet k st) else st"
  have r1: "ready ?st1" using Cons.prems by simp
  show ?case
    unfolding remove_old_Cons_ready[OF Cons.prems] Cons.IH[OF r1]
    using Cons.prems by (auto simp: map_of_removePlanet)
qed

lemma add_new_Cons_ready:
  "ready st \<Longrightarrow> add_new rnd ((index, d) # ixs) st =
     add_new rnd ixs (if map_of (planets st) (celestial_body_id d) = None
                      then state_of (createPlanet rnd d index st) else st)"
  using createPlanet_ready[of st rnd d index] by (cases "createPlanet rnd d index st") auto

lemma add_new_returns:
  "ready st \<Longrightarrow> add_new rnd ixs st = Returned (state_of (add_new rnd ixs st))"
proof (induction ixs arbitrary: st)
  case Nil
  then show ?case by simp
next
  case (Cons a ixs)
  obtain index d where a: "a = (index, d)" by (cases a)
  let ?st1 = "if map_of (planets st) (celestial_body_id d) = None
              then state_of (createPlanet rnd d index st) else st"
  have "ready ?st1" using Cons.prems by simp
  then show ?case
    unfolding a add_new_Cons_ready[OF Cons.prems] by (rule Cons.IH)
qed

lemma ready_add_new: "ready st \<Longrightarrow> ready (state_of (add_new rnd ixs st))"
proof (induction ixs arbitrary: st)
  case Nil
  then show ?case by simp
next
  case (Cons a ixs)
  obtain index d where a: "a = (index, d)" by (cases a)
  let ?st1 = "if map_of (planets st) (celestial_body_id d) = None
              then state_of (createPlanet rnd d index st) else st"
  have "ready ?st1" using Cons.prems by simp
  then show ?case
    unfolding a add_new_Cons_ready[OF Cons.prems] by (rule Cons.IH)
qed

lemma live_ids_add_new:
  "ready st \<Longrightarrow> live_ids (state_of (add_new rnd ixs st)) =
     live_ids st \<union> (celestial_body_id \<circ> snd) ` set ixs"
proof (induction ixs arbitrary: st)
  case Nil
  then show ?case by simp
next
  case (Cons a ixs)
  obtain index d where a: "a = (index, d)" by (cases a)
  let ?st1 = "if map_of (planets st) (celestial_body_id d) = None
              then state_of (createPlanet rnd d index st) else st"
  have r1: "ready ?st1" using Cons.prems by simp
  show ?case
    unfolding a add_new_Cons_ready[OF Cons.prems] Cons.IH[OF r1]
    by (auto simp: live_ids_createPlanet)
       (auto simp: live_ids_def map_of_eq_None_iff dest!: map_of_SomeD intro: rev_image_eqI)
qed

lemma ids_enumerate:
  "(celestial_body_id \<circ> snd) ` set (enumerate n snapshot) = set (map celestial_body_id snapshot)"
  by (metis image_comp list.set_map map_snd_enumerate)

lemma case_returned:
  "out = Returned (state_of out) \<Longrightarrow>
   (case out of Returned st' \<Rightarrow> k st' | Threw e st' \<Rightarrow> Threw e st') = k (state_of out)"
  by (cases out) simp_all

lemma reconcile_ready:
  "ready st \<Longrightarrow> reconcile rnd snapshot st =
     state_of (add_new rnd (enumerate 0 snapshot)
       (state_of (remove_old (map celestial_body_id snapshot) (map fst (planets st))
          (st \<lparr> planetsData := snapshot \<rparr>))))"
proof -
  assume r: "ready st"
  let ?st0 = "st \<lparr> planetsData := snapshot \<rparr>"
  have "ready ?st0" using r by simp
  then have "remove_old (map celestial_body_id snapshot) (map fst (planets st)) ?st0 =
     Returned (state_of (remove_old (map celestial_body_id snapshot) (map fst (planets st)) ?st0))"
    by (rule remove_old_returns)
  then show ?thesis
    by (simp add: reconcile_def updatePlanets_def Let_def case_returned)
qed

lemma updatePlanets_returns:
  "ready st \<Longrightarrow> updatePlanets rnd st = Returned (state_of (updatePlanets rnd st))"
proof -
  assume r: "ready st"
  let ?ids = "map celestial_body_id (planetsData st)"
  let ?st1 = "state_of (remove_old ?ids (map fst (planets st)) st)"
  have e: "remove_old ?ids (map fst (planets st)) st = Returned ?st1"
    using r by (rule remove_old_returns)
  have "ready ?st1" using r by (rule ready_remove_old)
  then have "add_new rnd (enumerate 0 (planetsData st)) ?st1 =
     Returned (state_of (add_new rnd (enumerate 0 (planetsData st)) ?st1))"
    by (rule add_new_returns)
  then show ?thesis by (simp add: updatePlanets_def Let_def case_returned[OF e])
qed

lemma ready_reconcile: "ready st \<Longrightarrow> ready (reconcile rnd snapshot st)"
  unfolding reconcile_ready
  by (intro ready_add_new ready_remove_old) simp

lemma live_ids_reconcile:
  assumes "ready st"
  shows "live_ids (reconcile rnd snapshot st) = set (map celestial_body_id snapshot)"
proof -
  let ?ids = "map celestial_body_id snapshot"
  let ?st0 = "st \<lparr> planetsData := snapshot \<rparr>"
  let ?st1 = "state_of (remove_old ?ids (map fst (planets st)) ?st0)"
  have r0: "ready ?st0" using assms by simp
  have r1: "ready ?st1" using r0 by (rule ready_remove_old)
  have "live_ids ?st1 = live_ids st \<inter> set ?ids"
    using live_ids_remove_old[OF r0, of ?ids] by (simp add: live_ids_def)
  then show ?thesis
    unfolding reconcile_ready[OF assms] live_ids_add_new[OF r1] ids_enumerate by auto
qed

subsection \<open>The effects of \<open>updatePlanets\<close> on one body\<close>

lemma effects_on_append [simp]: "effects_on i (xs @ ys) = effects_on i xs @ effects_on i ys"
  by (simp add: effects_on_def)




lemma map_of_add_new:
  "i \<in> live_ids st \<Longrightarrow> map_of (planets (state_of (add_new rnd ixs st))) i = map_of (planets st) i"
proof (induction ixs arbitrary: st)
  case Nil
  then show ?case by simp
next
  case (Cons a ixs)
  obtain index d where a: "a = (index, d)" by (cases a)
  show ?case
  proof (cases "map_of (planets st) (celestial_body_id d) = None")
    case False
    then show ?thesis unfolding a using Cons.IH[OF Cons.prems] by auto
  next
    case True
    let ?c = "createPlanet rnd d index st"
    have ne: "i \<noteq> celestial_body_id d" using True Cons.prems by (auto simp: live_ids_map_of)
    have m: "map_of (planets (state_of ?c)) i = map_of (planets st) i"
      using ne by (simp add: map_of_createPlanet)
    have live: "i \<in> live_ids (state_of ?c)"
      using Cons.prems by (simp add: live_ids_createPlanet)
    show ?thesis
    proof (cases ?c)
      case (Returned st')
      then have "add_new rnd (a # ixs) st = add_new rnd ixs st'" using True by (simp add: a)
      moreover have "st' = state_of ?c" using Returned by simp
      ultimately show ?thesis using Cons.IH[of "state_of ?c"] live m by simp
    next
      case (Threw e st')
      then have "add_new rnd (a # ixs) st = Threw e st'" using True by (simp add: a)
      moreover have "st' = state_of ?c" using Threw by simp
      ultimately show ?thesis using m by simp
    qed
  qed
qed


lemma remove_old_noop:
  "set ks \<subseteq> set ids \<Longrightarrow> remove_old ids ks st = Returned st"
  by (induction ks arbitrary: st) auto

lemma add_new_noop:
  "(celestial_body_id \<circ> snd) ` set ixs \<subseteq> live_ids st \<Longrightarrow> add_new rnd ixs st = Returned st"
proof (induction ixs arbitrary: st)
  case Nil
  then show ?case by simp
next
  case (Cons a ixs)
  obtain index d where a: "a = (index, d)" by (cases a)
  from Cons.prems have live: "map_of (planets st) (celestial_body_id d) \<noteq> None"
    and rest: "(celestial_body_id \<circ> snd) ` set ixs \<subseteq> live_ids st"
    by (simp_all add: a live_ids_map_of)
  show ?case unfolding a using live Cons.IH[OF rest] by auto
qed

lemma reconcile_noop:
  assumes "live_ids st = set (map celestial_body_id snapshot)"
  shows "reconcile rnd snapshot st = st \<lparr> planetsData := snapshot \<rparr>"
proof -
  let ?st0 = "st \<lparr> planetsData := snapshot \<rparr>"
  have live: "live_ids ?st0 = set (map celestial_body_id snapshot)"
    using assms by (simp add: live_ids_def)
  have "set (map fst (planets ?st0)) \<subseteq> set (map celestial_body_id snapshot)"
    using live by (simp add: live_ids_def)
  then have r: "remove_old (map celestial_body_id snapshot) (map fst (planets ?st0)) ?st0 =
                Returned ?st0"
    by (rule remove_old_noop)
  have a: "add_new rnd (enumerate 0 snapshot) ?st0 = Returned ?st0"
    by (rule add_new_noop) (simp only: ids_enumerate live)
  show ?thesis
    unfolding reconcile_def updatePlanets_def Let_def
    using r a by simp
qed

lemma planetsData_reconcile: "planetsData (reconcile rnd snapshot st) = snapshot"
proof -
  have r: "planetsData (state_of (remove_old ids ks s)) = planetsData s" for ids ks s
    by (induction ks arbitrary: s)
       (auto simp: removePlanet_def split: option.splits outcome.splits if_splits)
  have a: "planetsData (state_of (add_new rnd ixs s)) = planetsData s" for ixs s
    by (induction rnd ixs s rule: add_new.induct)
       (auto simp: createPlanet_def Let_def split: outcome.splits if_splits)
  show ?thesis
    using r[of "map celestial_body_id snapshot" "map fst (planets st)" "st \<lparr> planetsData := snapshot \<rparr>"]
    by (auto simp: reconcile_def updatePlanets_def Let_def a split: outcome.splits)
qed

lemma reconcile_twice:
  "ready st \<Longrightarrow>
   reconcile rnd' snapshot (reconcile rnd snapshot st) = reconcile rnd snapshot st"
proof -
  assume r: "ready st"
  have "reconcile rnd' snapshot (reconcile rnd snapshot st)
        = (reconcile rnd snapshot st) \<lparr> planetsData := snapshot \<rparr>"
    by (rule reconcile_noop) (rule live_ids_reconcile[OF r])
  then show ?thesis using planetsData_reconcile[of rnd snapshot st] by simp
qed

subsection \<open>Well-formed states\<close>

lemma remove1_planet_nodes:
  "distinct (map fst ps) \<Longrightarrow>
   remove1 (PlanetGroup k) (map (\<lambda>e. PlanetGroup (fst e)) ps) =
   map (\<lambda>e. PlanetGroup (fst e)) (AList.delete k ps)"
proof (induction ps)
  case Nil
  then show ?case by simp
next
  case (Cons p ps)
  then show ?case
    by (cases "fst p = k") (auto simp: AList.delete_id)
qed

lemma update_fresh: "k \<notin> fst ` set ps \<Longrightarrow> AList.update k v ps = ps @ [(k, v)]"
  by (induction ps) auto

lemma wf_removePlanet: "wf_engine st \<Longrightarrow> wf_engine (state_of (removePlanet k st))"
proof -
  assume wf: "wf_engine st"
  show ?thesis
  proof (cases "map_of (planets st) k")
    case None
    then show ?thesis using wf by (simp add: removePlanet_def)
  next
    case (Some g)
    have r: "ready st" using wf by (simp add: wf_engine_def)
    have d: "distinct (map fst (planets st))" using wf by (simp add: wf_engine_def)
    have sc: "scene st = shared_nodes @ map (\<lambda>e. PlanetGroup (fst e)) (planets st)"
      using wf by (simp add: wf_engine_def)
    have notin: "PlanetGroup k \<notin> set shared_nodes" by (simp add: shared_nodes_def)
    have "remove1 (PlanetGroup k) (scene st) =
          shared_nodes @ map (\<lambda>e. PlanetGroup (fst e)) (AList.delete k (planets st))"
      unfolding sc using notin by (simp add: remove1_append remove1_planet_nodes[OF d])
    moreover have "distinct (map fst (AList.delete k (planets st)))"
      using d by (rule AList.distinct_delete)
    moreover have "list_all wf_group (AList.delete k (planets st))"
      using wf by (simp add: wf_engine_def AList.delete_eq list_all_iff)
    ultimately show ?thesis
      using wf Some r by (simp add: removePlanet_def wf_engine_def)
  qed
qed

lemma wf_remove_old: "wf_engine st \<Longrightarrow> wf_engine (state_of (remove_old ids ks st))"
proof (induction ks arbitrary: st)
  case Nil
  then show ?case by simp
next
  case (Cons k ks)
  have r: "ready st" using Cons.prems by (simp add: wf_engine_def)
  let ?st1 = "if k \<notin> set ids then state_of (removePlanet k st) else st"
  have "wf_engine ?st1" using Cons.prems by (simp add: wf_removePlanet)
  then show ?case unfolding remove_old_Cons_ready[OF r] by (rule Cons.IH)
qed

lemma wf_build_group: "wf_group (celestial_body_id d, build_group r d index)"
  by (simp add: wf_group_def build_group_def Let_def)

lemma wf_createPlanet:
  assumes "wf_engine st" and "map_of (planets st) (celestial_body_id d) = None"
  shows "wf_engine (state_of (createPlanet rnd d index st))"
proof -
  have fresh: "celestial_body_id d \<notin> fst ` set (planets st)"
    using assms(2) by (simp add: map_of_eq_None_iff)
  show ?thesis
    using assms(1) fresh wf_build_group[of d "rnd (random_draws st)" index]
    by (auto simp: wf_engine_def createPlanet_def Let_def update_fresh)
qed

lemma wf_add_new: "wf_engine st \<Longrightarrow> wf_engine (state_of (add_new rnd ixs st))"
proof (induction ixs arbitrary: st)
  case Nil
  then show ?case by simp
next
  case (Cons a ixs)
  obtain index d where a: "a = (index, d)" by (cases a)
  have r: "ready st" using Cons.prems by (simp add: wf_engine_def)
  show ?case unfolding a add_new_Cons_ready[OF r]
    using Cons.prems by (auto intro!: Cons.IH wf_createPlanet)
qed

lemma wf_reconcile: "wf_engine st \<Longrightarrow> wf_engine (reconcile rnd snapshot st)"
proof -
  assume wf: "wf_engine st"
  then have r: "ready st" by (simp add: wf_engine_def)
  from wf have "wf_engine (st \<lparr> planetsData := snapshot \<rparr>)" by (simp add: wf_engine_def)
  then show ?thesis
    unfolding reconcile_ready[OF r] by (intro wf_add_new wf_remove_old)
qed


lemma wf_init_state: "wf_engine init_state"
  by (simp add: wf_engine_def init_state_def)

lemma planets_state_a:
  "planets state_a =
     [(''A'', \<lparr> name = ''Aurelia'', userData_id = ''A'', orbitalRadius = 15,
              orbitSpeed = 3 / 20, position = (15, 0, 0), rotation_y = 0,
              children = [PlanetMesh, AtmosphereMesh], textured = [PlanetMesh] \<rparr>)]"
  by (simp add: state_a_def reconcile_def updatePlanets_def createPlanet_def build_group_def
      init_state_def planet_a_def rnd_half_def Let_def)

lemma wf_state_a: "wf_engine state_a"
  unfolding state_a_def by (rule wf_reconcile) (rule wf_init_state)

lemma planets_state_ab:
  "planets state_ab =
     [(''A'', \<lparr> name = ''Aurelia'', userData_id = ''A'', orbitalRadius = 15,
              orbitSpeed = 3 / 20, position = (15, 0, 0), rotation_y = 0,
              children = [PlanetMesh, AtmosphereMesh], textured = [PlanetMesh] \<rparr>),
      (''B'', \<lparr> name = ''Boreas'', userData_id = ''B'', orbitalRadius = 23,
              orbitSpeed = 3 / 20, position = (23, 0, 0), rotation_y = 0,
              children = [PlanetMesh, AtmosphereMesh, RingMesh], textured = [PlanetMesh] \<rparr>)]"
  by (simp add: state_ab_def reconcile_def updatePlanets_def createPlanet_def build_group_def
      init_state_def planet_a_def planet_b_def rnd_half_def Let_def)


lemma wf_state_ab: "wf_engine state_ab"
  unfolding state_ab_def by (rule wf_reconcile) (rule wf_init_state)


subsection \<open>What \<open>reconcile\<close> guarantees\<close>





subsection \<open>Idempotence\<close>

text \<open>
  C5. When the ids of the snapshot are exactly the live ids, \<open>reconcile\<close> stores the
  snapshot and changes nothing else: the map of live bodies, the scene, the number of
  random draws and the trace (no group added, no resource disposed) are as before.
\<close>

theorem reconcile_same_ids_unchanged:
  assumes "live_ids st = set (map celestial_body_id snapshot)"
  shows "reconcile rnd snapshot st = st \<lparr> planetsData := snapshot \<rparr>"
  using assms by (rule reconcile_noop)

text \<open>C5 at a concrete input: planet \<open>A\<close> is live and the snapshot is planet \<open>A\<close> again.\<close>

theorem reconcile_same_ids_unchanged_witness:
  "live_ids state_a = set (map celestial_body_id [planet_a]) \<and>
   reconcile rnd_half [planet_a] state_a = state_a \<lparr> planetsData := [planet_a] \<rparr>"
proof -
  have "ready init_state" by (simp add: init_state_def)
  then have la: "live_ids state_a = set (map celestial_body_id [planet_a])"
    unfolding state_a_def by (rule live_ids_reconcile)
  show ?thesis
    using la reconcile_same_ids_unchanged [OF la, of rnd_half] by simp
qed

section \<open>Orbit constants\<close>

subsection \<open>The radius given at creation\<close>

lemma add_new_append:
  "ready st \<Longrightarrow>
   state_of (add_new rnd (xs @ ys) st) = state_of (add_new rnd ys (state_of (add_new rnd xs st)))"
proof (induction xs arbitrary: st)
  case Nil
  then show ?case by simp
next
  case (Cons a xs)
  obtain index d where a: "a = (index, d)" by (cases a)
  let ?st1 = "if map_of (planets st) (celestial_body_id d) = None
              then state_of (createPlanet rnd d index st) else st"
  have r1: "ready ?st1" using Cons.prems by simp
  have "add_new rnd ((a # xs) @ ys) st = add_new rnd (xs @ ys) ?st1"
    using add_new_Cons_ready[OF Cons.prems, of rnd index d "xs @ ys"] by (simp add: a)
  moreover have "add_new rnd (a # xs) st = add_new rnd xs ?st1"
    using add_new_Cons_ready[OF Cons.prems, of rnd index d xs] by (simp add: a)
  ultimately show ?case using Cons.IH[OF r1] by simp
qed

lemma enumerate_split:
  "i < length xs \<Longrightarrow>
   enumerate 0 xs = enumerate 0 (take i xs) @ (i, xs ! i) # enumerate (Suc i) (drop (Suc i) xs)"
proof -
  assume i: "i < length xs"
  then have "xs = take i xs @ xs ! i # drop (Suc i) xs" by (rule id_take_nth_drop)
  then have "enumerate 0 xs = enumerate 0 (take i xs @ xs ! i # drop (Suc i) xs)" by simp
  also have "\<dots> = enumerate 0 (take i xs) @ (i, xs ! i) # enumerate (Suc i) (drop (Suc i) xs)"
    using i by (simp add: enumerate_append_eq min_def)
  finally show ?thesis .
qed

lemma created_at_index:
  assumes r: "ready st"
    and i: "i < length snapshot"
    and new: "celestial_body_id (snapshot ! i) \<notin> live_ids st"
    and first: "\<forall>j<i. celestial_body_id (snapshot ! j) \<noteq> celestial_body_id (snapshot ! i)"
  shows "\<exists>g. map_of (planets (reconcile rnd snapshot st)) (celestial_body_id (snapshot ! i)) = Some g
           \<and> orbitalRadius g = 15 + real i * 8 \<and> position g = (15 + real i * 8, 0, 0)"
proof -
  let ?d = "snapshot ! i"
  let ?k = "celestial_body_id ?d"
  let ?ids = "map celestial_body_id snapshot"
  let ?st0 = "st \<lparr> planetsData := snapshot \<rparr>"
  let ?st1 = "state_of (remove_old ?ids (map fst (planets st)) ?st0)"
  let ?st2 = "state_of (add_new rnd (enumerate 0 (take i snapshot)) ?st1)"
  let ?st3 = "state_of (createPlanet rnd ?d i ?st2)"
  let ?post = "enumerate (Suc i) (drop (Suc i) snapshot)"
  have r0: "ready ?st0" using r by simp
  have r1: "ready ?st1" using r0 by (rule ready_remove_old)
  have r2: "ready ?st2" using r1 by (rule ready_add_new)
  have live1: "live_ids ?st1 = live_ids st \<inter> set ?ids"
    using live_ids_remove_old[OF r0, of ?ids] by (simp add: live_ids_def)
  have "?k \<notin> set (map celestial_body_id (take i snapshot))"
  proof
    assume "?k \<in> set (map celestial_body_id (take i snapshot))"
    then obtain j where "j < i" and "celestial_body_id (take i snapshot ! j) = ?k"
      by (auto simp: in_set_conv_nth)
    then have "j < i" and "celestial_body_id (snapshot ! j) = ?k" by simp_all
    with first show False by blast
  qed
  then have "?k \<notin> live_ids ?st2"
    using new live1 unfolding live_ids_add_new[OF r1] ids_enumerate by simp
  then have none: "map_of (planets ?st2) ?k = None" by (simp add: live_ids_map_of)
  have "reconcile rnd snapshot st = state_of (add_new rnd ((i, ?d) # ?post) ?st2)"
  proof -
    have "reconcile rnd snapshot st = state_of (add_new rnd (enumerate 0 snapshot) ?st1)"
      by (rule reconcile_ready[OF r])
    also have "\<dots> = state_of (add_new rnd (enumerate 0 (take i snapshot) @ (i, ?d) # ?post) ?st1)"
      using enumerate_split[OF i] by simp
    finally show ?thesis by (simp only: add_new_append[OF r1])
  qed
  also have "\<dots> = state_of (add_new rnd ?post ?st3)"
    unfolding add_new_Cons_ready[OF r2] using none by simp
  finally have eq: "reconcile rnd snapshot st = state_of (add_new rnd ?post ?st3)" .
  have "?k \<in> live_ids ?st3" by (simp add: live_ids_createPlanet)
  then have "map_of (planets (state_of (add_new rnd ?post ?st3))) ?k = map_of (planets ?st3) ?k"
    by (rule map_of_add_new)
  then show ?thesis unfolding eq by (simp add: map_of_createPlanet build_group_def Let_def)
qed

text \<open>
  C4. Once \<open>init\<close> has run, \<open>createPlanet\<close> is called with the index the record has in the
  snapshot being reconciled, and gives the body the radius \<open>15 + index * 8\<close>: when the
  record at position \<open>i\<close> of the snapshot has an id that is not live and that no earlier
  record of the snapshot has, then after \<open>reconcile\<close> the body with that id has
  \<open>orbitalRadius = 15 + i * 8\<close> (and starts on the x axis at that distance).
\<close>

theorem orbital_radius_by_snapshot_index:
  assumes "ready st"
    and "i < length snapshot"
    and "celestial_body_id (snapshot ! i) \<notin> live_ids st"
    and "\<forall>j<i. celestial_body_id (snapshot ! j) \<noteq> celestial_body_id (snapshot ! i)"
  shows "\<exists>g. map_of (planets (reconcile rnd snapshot st)) (celestial_body_id (snapshot ! i)) = Some g
           \<and> orbitalRadius g = 15 + real i * 8 \<and> position g = (15 + real i * 8, 0, 0)"
  using assms by (rule created_at_index)

text \<open>
  C4 on the snapshot of two new bodies, \<open>A\<close> at index 0 and \<open>B\<close> at index 1: the radius of
  \<open>B\<close> is 23, the radius of \<open>A\<close> is 15, one step of 8 less.
\<close>

theorem orbital_radius_by_snapshot_index_witness:
  "ready init_state \<and>
   (1::nat) < length [planet_a, planet_b] \<and>
   celestial_body_id ([planet_a, planet_b] ! 1) \<notin> live_ids init_state \<and>
   celestial_body_id ([planet_a, planet_b] ! 0) \<noteq> celestial_body_id ([planet_a, planet_b] ! 1) \<and>
   (\<exists>g. map_of (planets state_ab) ''B'' = Some g \<and> orbitalRadius g = 23) \<and>
   map_option orbitalRadius (map_of (planets state_ab) ''A'') = Some 15"
proof -
  have h0: "ready init_state" by (simp add: init_state_def)
  have h1: "(1::nat) < length [planet_a, planet_b]" by simp
  have h2: "celestial_body_id ([planet_a, planet_b] ! 1) \<notin> live_ids init_state"
    by (simp add: live_ids_def init_state_def)
  have h3: "\<forall>j<1. celestial_body_id ([planet_a, planet_b] ! j) \<noteq> celestial_body_id ([planet_a, planet_b] ! 1)"
    by (simp add: planet_a_def planet_b_def)
  have a: "map_option orbitalRadius (map_of (planets state_ab) ''A'') = Some 15"
    by (simp add: planets_state_ab)
  show ?thesis
    using h0 h1 h2 h3 a orbital_radius_by_snapshot_index [OF h0 h1 h2 h3, of rnd_half]
    by (auto simp: state_ab_def planet_b_def)
qed

subsection \<open>The constants of a live body do not change\<close>

lemma remove_old_not_ready:
  "\<not> ready st \<Longrightarrow> state_of (remove_old ids ks st) = st"
  by (induction ks arbitrary: st)
     (auto simp: removePlanet_def split: option.splits outcome.splits)

lemma map_of_reconcile_before_init:
  assumes "\<not> ready st" and "i \<in> live_ids st"
  shows "map_of (planets (reconcile rnd snapshot st)) i = map_of (planets st) i"
proof -
  let ?ids = "map celestial_body_id snapshot"
  let ?st0 = "st \<lparr> planetsData := snapshot \<rparr>"
  let ?r = "remove_old ?ids (map fst (planets st)) ?st0"
  have n0: "\<not> ready ?st0" using assms(1) by simp
  have s: "state_of ?r = ?st0" using n0 by (rule remove_old_not_ready)
  have l0: "i \<in> live_ids ?st0" using assms(2) by (simp add: live_ids_def)
  show ?thesis
  proof (cases ?r)
    case (Returned st')
    then have "st' = ?st0" using s by simp
    then have "reconcile rnd snapshot st = state_of (add_new rnd (enumerate 0 snapshot) ?st0)"
      using Returned by (simp add: reconcile_def updatePlanets_def Let_def)
    then show ?thesis using map_of_add_new[OF l0, of rnd "enumerate 0 snapshot"] by simp
  next
    case (Threw e st')
    then have "st' = ?st0" using s by simp
    then have "reconcile rnd snapshot st = ?st0"
      using Threw by (simp add: reconcile_def updatePlanets_def Let_def)
    then show ?thesis by simp
  qed
qed

lemma orbit_constants_reconcile:
  assumes "map_of (planets st) i \<noteq> None"
    and "map_of (planets (reconcile rnd snapshot st)) i \<noteq> None"
  shows "orbit_constants (reconcile rnd snapshot st) i = orbit_constants st i"
proof (cases "ready st")
  case True
  let ?ids = "map celestial_body_id snapshot"
  let ?st0 = "st \<lparr> planetsData := snapshot \<rparr>"
  let ?st1 = "state_of (remove_old ?ids (map fst (planets st)) ?st0)"
  have r0: "ready ?st0" using True by simp
  have "i \<in> live_ids (reconcile rnd snapshot st)" using assms(2) by (simp add: live_ids_map_of)
  then have in_ids: "i \<in> set ?ids" unfolding live_ids_reconcile[OF True] .
  have m1: "map_of (planets ?st1) i = map_of (planets st) i"
    using in_ids map_of_remove_old[OF r0, of ?ids "map fst (planets st)" i] by simp
  then have "i \<in> live_ids ?st1" using assms(1) by (simp add: live_ids_map_of)
  then have "map_of (planets (state_of (add_new rnd (enumerate 0 snapshot) ?st1))) i =
             map_of (planets ?st1) i"
    by (rule map_of_add_new)
  then show ?thesis
    using m1 unfolding reconcile_ready[OF True] by (simp add: orbit_constants_def)
next
  case False
  have "i \<in> live_ids st" using assms(1) by (simp add: live_ids_map_of)
  then show ?thesis
    using map_of_reconcile_before_init[OF False] by (simp add: orbit_constants_def)
qed

lemma map_of_animate_planets:
  "map_of (planets (animate_planets dt t st)) i = map_option (animate_group dt t) (map_of (planets st) i)"
  unfolding animate_planets_def
  by (induction "planets st" arbitrary: st) (auto simp: map_of_map)

lemma planets_focusOnSelectedPlanet [simp]: "planets (focusOnSelectedPlanet st) = planets st"
  by (simp add: focusOnSelectedPlanet_def Let_def split: option.splits)

lemma planets_onCanvasClick [simp]: "planets (onCanvasClick st) = planets st"
  by (simp add: onCanvasClick_def)

lemma planets_disconnectedCallback [simp]: "planets (disconnectedCallback st) = planets st"
  by (simp add: disconnectedCallback_def)

lemma planets_hover_logic [simp]: "planets (hover_logic hs st) = planets st"
  by (simp add: hover_logic_def split: option.splits)

lemma planets_animate_camera [simp]: "planets (animate_camera f st) = planets st"
  by (simp add: animate_camera_def Let_def)

lemma planets_animate_entity [simp]: "planets (animate_entity t st) = planets st"
  by (simp add: animate_entity_def)

lemma planets_animate:
  "planets (animate f st) =
     (if ready st then map (\<lambda>(i, g). (i, animate_group (delta f) (elapsed f) g)) (planets st)
      else planets st)"
  by (simp add: animate_def Let_def animate_planets_def)

lemma map_of_animate:
  "map_of (planets (animate f st)) i =
     (if ready st then map_option (animate_group (delta f) (elapsed f)) (map_of (planets st) i)
      else map_of (planets st) i)"
  by (simp add: planets_animate map_of_map)

lemma map_of_animate_None:
  "map_of (planets (animate f st)) i = None \<longleftrightarrow> map_of (planets st) i = None"
  by (simp add: map_of_animate)

lemma ready_animate [simp]: "ready (animate f st) = ready st"
  by (simp add: animate_def Let_def animate_entity_def hover_logic_def animate_camera_def
      animate_planets_def split: option.splits)

lemma orbit_constants_animate: "orbit_constants (animate f st) i = orbit_constants st i"
  by (simp add: orbit_constants_def map_of_animate option.map_comp comp_def animate_group_def)

lemma orbit_constants_step:
  assumes "map_of (planets st) i \<noteq> None" and "map_of (planets (step rnd e st)) i \<noteq> None"
  shows "orbit_constants (step rnd e st) i = orbit_constants st i"
proof (cases e)
  case (SetPlanetsData snapshot)
  then show ?thesis using assms by (simp add: orbit_constants_reconcile)
next
  case (AnimationFrame f)
  then show ?thesis by (simp add: orbit_constants_animate)
qed (simp_all add: orbit_constants_def)

lemma orbit_constants_run:
  "stays_live rnd i evs st \<Longrightarrow> orbit_constants (run rnd evs st) i = orbit_constants st i"
proof (induction evs arbitrary: st)
  case Nil
  then show ?case by (simp add: run_def)
next
  case (Cons e evs)
  from Cons.prems have l0: "map_of (planets st) i \<noteq> None"
    and rest: "stays_live rnd i evs (step rnd e st)" by simp_all
  from rest have l1: "map_of (planets (step rnd e st)) i \<noteq> None" by (cases evs) simp_all
  have "run rnd (e # evs) st = run rnd evs (step rnd e st)" by (simp add: run_def)
  then show ?case
    using Cons.IH[OF rest] orbit_constants_step[OF l0 l1] by simp
qed

text \<open>
  C2. Along any run of events (snapshots, frames, selections, clicks, \<open>\<dots>\<close>) in which the
  body \<open>i\<close> is live in every state, the \<open>orbitalRadius\<close> and the \<open>orbitSpeed\<close> of \<open>i\<close> at the end
  are the ones it had at the start, whatever happens to other bodies.
\<close>

theorem orbit_constants_fixed_while_live:
  assumes "stays_live rnd i evs st"
  shows "orbit_constants (run rnd evs st) i = orbit_constants st i"
  using assms by (rule orbit_constants_run)

text \<open>
  C2 at a concrete run: \<open>A\<close> and \<open>B\<close> are live, a frame passes, \<open>A\<close> is removed, a frame
  passes; \<open>B\<close> keeps radius 23 and speed 0.15.
\<close>

theorem orbit_constants_fixed_while_live_witness:
  "stays_live rnd_half ''B''
     [AnimationFrame frame_miss, SetPlanetsData [planet_b], AnimationFrame frame_miss] state_ab \<and>
   orbit_constants state_ab ''B'' = Some (23, 3 / 20) \<and>
   orbit_constants
     (run rnd_half [AnimationFrame frame_miss, SetPlanetsData [planet_b], AnimationFrame frame_miss]
        state_ab) ''B'' = Some (23, 3 / 20)"
proof -
  have b: "map_of (planets state_ab) ''B'' =
      Some \<lparr> name = ''Boreas'', userData_id = ''B'', orbitalRadius = 23,
             orbitSpeed = 3 / 20, position = (23, 0, 0), rotation_y = 0,
             children = [PlanetMesh, AtmosphereMesh, RingMesh], textured = [PlanetMesh] \<rparr>"
    by (simp add: planets_state_ab)
  have r: "ready state_ab" using wf_state_ab by (simp add: wf_engine_def)
  have l1: "map_of (planets (animate frame_miss state_ab)) ''B'' \<noteq> None"
    by (simp add: map_of_animate_None b)
  have l2: "map_of (planets (reconcile rnd_half [planet_b] (animate frame_miss state_ab))) ''B'' \<noteq> None"
  proof -
    have "ready (animate frame_miss state_ab)" using r by simp
    then have "live_ids (reconcile rnd_half [planet_b] (animate frame_miss state_ab)) =
               set (map celestial_body_id [planet_b])"
      by (rule live_ids_reconcile)
    then have "''B'' \<in> live_ids (reconcile rnd_half [planet_b] (animate frame_miss state_ab))"
      by (simp add: planet_b_def)
    then show ?thesis using live_ids_map_of by blast
  qed
  have l3: "map_of (planets (animate frame_miss
              (reconcile rnd_half [planet_b] (animate frame_miss state_ab)))) ''B'' \<noteq> None"
    unfolding map_of_animate_None by (rule l2)
  have live: "stays_live rnd_half ''B''
     [AnimationFrame frame_miss, SetPlanetsData [planet_b], AnimationFrame frame_miss] state_ab"
    using b l1 l2 l3 by simp
  have c: "orbit_constants state_ab ''B'' = Some (23, 3 / 20)"
    by (simp add: orbit_constants_def b)
  show ?thesis
    using live c orbit_constants_fixed_while_live [OF live] by simp
qed

section \<open>Orbital motion\<close>

lemma run_frames_snoc:
  "run rnd (map AnimationFrame (fs @ [f])) st = animate f (run rnd (map AnimationFrame fs) st)"
  by (simp add: run_def)

lemma ready_run_frames: "ready (run rnd (map AnimationFrame fs) st) = ready st"
  by (induction fs arbitrary: st) (simp_all add: run_def)

lemma orbit_constants_run_frames:
  "orbit_constants (run rnd (map AnimationFrame fs) st) i = orbit_constants st i"
  by (induction fs arbitrary: st) (simp_all add: run_def orbit_constants_animate)

lemma position_after_frames:
  assumes "ready st" and "map_of (planets st) i = Some g"
  shows "map_option position (map_of (planets (run rnd (map AnimationFrame (fs @ [f])) st)) i) =
         Some (cos (elapsed f * orbitSpeed g) * orbitalRadius g, 0,
               sin (elapsed f * orbitSpeed g) * orbitalRadius g)"
proof -
  let ?st = "run rnd (map AnimationFrame fs) st"
  have "orbit_constants ?st i = Some (orbitalRadius g, orbitSpeed g)"
    using assms(2) by (simp add: orbit_constants_run_frames) (simp add: orbit_constants_def)
  then obtain g' where g': "map_of (planets ?st) i = Some g'"
    and c: "orbitalRadius g' = orbitalRadius g" "orbitSpeed g' = orbitSpeed g"
    by (auto simp: orbit_constants_def)
  have "ready ?st" using assms(1) by (simp add: ready_run_frames)
  then show ?thesis
    unfolding run_frames_snoc by (simp add: map_of_animate g' animate_group_def c)
qed

text \<open>
  C3. After any sequence of frames ending with a frame at elapsed time \<open>t\<close>, a live body with
  constants \<open>r\<close> and \<open>s\<close> is at \<open>(cos (t * s) * r, 0, sin (t * s) * r)\<close>: the position is a
  function of \<open>t\<close> and of the constants only, whatever the earlier frames and their
  intervals were.
\<close>

theorem position_function_of_elapsed_time:
  assumes "ready st" and "map_of (planets st) i = Some g"
  shows "map_option position (map_of (planets (run rnd (map AnimationFrame (fs @ [f])) st)) i) =
         Some (cos (elapsed f * orbitSpeed g) * orbitalRadius g, 0,
               sin (elapsed f * orbitSpeed g) * orbitalRadius g)"
  using assms by (rule position_after_frames)

text \<open>C3 for planet \<open>A\<close> (radius 15, speed 0.15) after two frames, the last at one second.\<close>

theorem position_function_of_elapsed_time_witness:
  "ready state_a \<and>
   (\<exists>g. map_of (planets state_a) ''A'' = Some g \<and> orbitalRadius g = 15 \<and> orbitSpeed g = 3 / 20) \<and>
   map_option position
     (map_of (planets (run rnd_half
        (map AnimationFrame ([frame_miss \<lparr> delta := 1 / 2, elapsed := 1 / 2 \<rparr>] @ [frame_miss]))
        state_a)) ''A'') =
   Some (cos (3 / 20) * 15, 0, sin (3 / 20) * 15)"
proof -
  have r: "ready state_a" using wf_state_a by (simp add: wf_engine_def)
  have a: "map_of (planets state_a) ''A'' =
      Some \<lparr> name = ''Aurelia'', userData_id = ''A'', orbitalRadius = 15,
             orbitSpeed = 3 / 20, position = (15, 0, 0), rotation_y = 0,
             children = [PlanetMesh, AtmosphereMesh], textured = [PlanetMesh] \<rparr>"
    by (simp add: planets_state_a)
  show ?thesis
    using r a position_function_of_elapsed_time [OF r a,
        of rnd_half "[frame_miss \<lparr> delta := 1 / 2, elapsed := 1 / 2 \<rparr>]" frame_miss]
    by (simp add: frame_miss_def)
qed

section \<open>Hover and selection\<close>

subsection \<open>Every operation keeps the state well-formed\<close>

lemma truthy_Some: "truthy v \<longleftrightarrow> (\<exists>s. v = Some s \<and> s \<noteq> [])"
  by (cases v) (simp_all add: truthy_def)

lemma hovered_group_Some:
  "hovered_group hs st = Some p \<Longrightarrow>
     \<exists>i. parent_id p = Some i \<and> i \<noteq> [] \<and> map_of (planets st) i \<noteq> None
         \<and> hs \<noteq> [] \<and> hd hs = Some p"
  by (auto simp: hovered_group_def truthy_Some split: list.splits option.splits if_splits)

lemma hoveredPlanetId_hover_logic:
  "hoveredPlanetId (hover_logic hs st) = Some i \<Longrightarrow> i \<noteq> [] \<and> map_of (planets st) i \<noteq> None"
  by (auto simp: hover_logic_def split: option.splits dest!: hovered_group_Some)

lemma animate_ready:
  "ready st \<Longrightarrow> animate f st =
     animate_entity (elapsed f) (hover_logic (intersects f (before_hover f st)) (before_hover f st))"
  by (simp add: animate_def Let_def before_hover_def)

lemma planets_before_hover:
  "planets (before_hover f st) = map (\<lambda>(i, g). (i, animate_group (delta f) (elapsed f) g)) (planets st)"
  by (simp add: before_hover_def animate_planets_def)

lemma hoveredPlanetId_animate_entity [simp]:
  "hoveredPlanetId (animate_entity t st) = hoveredPlanetId st"
  by (simp add: animate_entity_def)

lemma hoveredPlanetId_animate:
  assumes "ready st" and "hoveredPlanetId (animate f st) = Some i"
  shows "i \<noteq> [] \<and> map_of (planets (animate f st)) i \<noteq> None"
proof -
  from assms have "hoveredPlanetId (hover_logic (intersects f (before_hover f st)) (before_hover f st)) = Some i"
    by (simp add: animate_ready)
  then have "i \<noteq> [] \<and> map_of (planets (before_hover f st)) i \<noteq> None"
    by (rule hoveredPlanetId_hover_logic)
  moreover have "planets (animate f st) = planets (before_hover f st)"
    using assms(1) by (simp add: animate_ready)
  ultimately show ?thesis by simp
qed

lemma keys_animate [simp]: "map fst (planets (animate f st)) = map fst (planets st)"
  by (simp add: planets_animate comp_def case_prod_unfold)

lemma nodes_animate:
  "map (\<lambda>e. PlanetGroup (fst e)) (planets (animate f st)) =
   map (\<lambda>e. PlanetGroup (fst e)) (planets st)"
  by (simp add: planets_animate comp_def case_prod_unfold)

lemma scene_animate [simp]: "scene (animate f st) = scene st"
  by (simp add: animate_def Let_def animate_entity_def hover_logic_def animate_camera_def
      animate_planets_def split: option.splits)

lemma wf_animate: "wf_engine st \<Longrightarrow> wf_engine (animate f st)"
proof -
  assume wf: "wf_engine st"
  then have r: "ready st" by (simp add: wf_engine_def)
  have "distinct (map fst (planets (animate f st)))" using wf by (simp add: wf_engine_def)
  moreover have "list_all wf_group (planets (animate f st))"
    using wf by (auto simp: wf_engine_def planets_animate list_all_iff wf_group_def animate_group_def)
  moreover have "scene (animate f st) =
      shared_nodes @ map (\<lambda>e. PlanetGroup (fst e)) (planets (animate f st))"
    using wf by (simp add: wf_engine_def nodes_animate)
  moreover have "hoveredPlanetId (animate f st) \<noteq> Some []"
    using hoveredPlanetId_animate[OF r] by blast
  ultimately show ?thesis using r by (simp add: wf_engine_def)
qed

lemma wf_focusOnSelectedPlanet: "wf_engine st \<Longrightarrow> wf_engine (focusOnSelectedPlanet st)"
  by (simp add: wf_engine_def focusOnSelectedPlanet_def Let_def split: option.splits)

lemma wf_step: "wf_engine st \<Longrightarrow> wf_engine (step rnd e st)"
proof (cases e)
  case (SetPlanetsData snapshot)
  assume "wf_engine st"
  then show ?thesis unfolding SetPlanetsData by (simp add: wf_reconcile)
next
  case (SetSelectedPlanetId sel)
  assume "wf_engine st"
  then have "wf_engine (st \<lparr> selectedPlanetId := sel \<rparr>)" by (simp add: wf_engine_def)
  then show ?thesis unfolding SetSelectedPlanetId by (simp add: wf_focusOnSelectedPlanet)
next
  case (AnimationFrame f)
  assume "wf_engine st"
  then show ?thesis unfolding AnimationFrame by (simp add: wf_animate)
qed (simp_all add: wf_engine_def onCanvasClick_def disconnectedCallback_def)

lemma wf_run: "wf_engine st \<Longrightarrow> wf_engine (run rnd evs st)"
  by (induction evs arbitrary: st) (simp_all add: run_def wf_step)

lemma wf_reachable: "wf_engine (run rnd evs init_state)"
  by (rule wf_run) (rule wf_init_state)

lemma hover_logic_no_hit:
  "hoveredPlanetId (hover_logic [] st) = None \<and> cursor (hover_logic [] st) = ''auto'' \<and>
   tooltipElement (hover_logic [] st) = map_option (\<lambda>t. t \<lparr> display := ''none'' \<rparr>) (tooltipElement st)"
  by (simp add: hover_logic_def hovered_group_def)

lemma cursor_animate_entity [simp]: "cursor (animate_entity t st) = cursor st"
  by (simp add: animate_entity_def)

lemma tooltip_animate_entity [simp]: "tooltipElement (animate_entity t st) = tooltipElement st"
  by (simp add: animate_entity_def)

lemma tooltip_before_hover [simp]: "tooltipElement (before_hover f st) = tooltipElement st"
  by (simp add: before_hover_def animate_camera_def animate_planets_def Let_def)

lemma no_hit_clears_hover:
  assumes "wf_engine st" and "intersects f (before_hover f st) = []"
  shows "hoveredPlanetId (animate f st) = None \<and> cursor (animate f st) = ''auto'' \<and>
         tooltipElement (animate f st) =
           map_option (\<lambda>t. t \<lparr> display := ''none'' \<rparr>) (tooltipElement st)"
proof -
  have "ready st" using assms(1) by (simp add: wf_engine_def)
  then show ?thesis using assms(2) hover_logic_no_hit[of "before_hover f st"]
    by (simp add: animate_ready)
qed

lemma click_emits_hovered:
  assumes "wf_engine st"
  shows "onCanvasClick st =
     st \<lparr> trace := trace st @ (case hoveredPlanetId st of None \<Rightarrow> [] | Some i \<Rightarrow> [PlanetSelected i]) \<rparr>"
proof (cases "hoveredPlanetId st")
  case None
  then show ?thesis by (simp add: onCanvasClick_def truthy_def)
next
  case (Some i)
  with assms have "i \<noteq> []" by (auto simp: wf_engine_def)
  with Some show ?thesis by (simp add: onCanvasClick_def truthy_def)
qed

subsection \<open>Hover and click\<close>

lemma wf_hovering_a: "wf_engine hovering_a"
  unfolding hovering_a_def by (rule wf_run) (rule wf_state_a)

lemma hovered_hovering_a: "hoveredPlanetId hovering_a = Some ''A''"
  by (simp add: hovering_a_def run_def animate_def Let_def animate_entity_def hover_logic_def
      hovered_group_def intersects_def frame_hit_a_def truthy_def animate_camera_def
      animate_planets_def planets_state_a wf_state_a[unfolded wf_engine_def])

text \<open>
  C9. In a well-formed state: a frame in which the ray caster reports no intersection with
  the live planet groups sets \<open>hoveredPlanetId\<close> to \<open>null\<close>, the cursor to \<open>auto\<close> and the
  display of the tooltip (when the element exists) to \<open>none\<close>; and a click appends the
  event \<open>planet-selected\<close> with the hovered id to the trace when \<open>hoveredPlanetId\<close> is set,
  and does nothing at all when it is \<open>null\<close>.
\<close>

theorem hover_cleared_and_click_emits_hovered:
  assumes "wf_engine st"
  shows "(intersects f (before_hover f st) = [] \<longrightarrow>
            hoveredPlanetId (animate f st) = None \<and> cursor (animate f st) = ''auto'' \<and>
            tooltipElement (animate f st) =
              map_option (\<lambda>t. t \<lparr> display := ''none'' \<rparr>) (tooltipElement st)) \<and>
         onCanvasClick st =
           st \<lparr> trace := trace st @
                  (case hoveredPlanetId st of None \<Rightarrow> [] | Some i \<Rightarrow> [PlanetSelected i]) \<rparr>"
  using no_hit_clears_hover[OF assms] click_emits_hovered[OF assms] by blast

text \<open>
  C9 at a concrete input: \<open>A\<close> is hovered, a click emits \<open>A\<close>; a frame without intersection
  clears the hover, resets cursor and tooltip.
\<close>

theorem hover_cleared_and_click_emits_hovered_witness:
  "wf_engine hovering_a \<and>
   intersects frame_miss (before_hover frame_miss hovering_a) = [] \<and>
   hoveredPlanetId hovering_a = Some ''A'' \<and>
   hoveredPlanetId (animate frame_miss hovering_a) = None \<and>
   cursor (animate frame_miss hovering_a) = ''auto'' \<and>
   map_option display (tooltipElement (animate frame_miss hovering_a)) = Some ''none'' \<and>
   trace (onCanvasClick hovering_a) = trace hovering_a @ [PlanetSelected ''A'']"
proof -
  have h: "intersects frame_miss (before_hover frame_miss hovering_a) = []"
    by (simp add: intersects_def frame_miss_def)
  have t: "map_option display (tooltipElement hovering_a) = Some ''block''"
    by (simp add: hovering_a_def run_def animate_def Let_def animate_entity_def hover_logic_def
      hovered_group_def intersects_def frame_hit_a_def truthy_def animate_camera_def
      animate_planets_def planets_state_a wf_state_a[unfolded wf_engine_def])
  show ?thesis
    using wf_hovering_a h t hovered_hovering_a
      hover_cleared_and_click_emits_hovered [OF wf_hovering_a, of frame_miss]
    by (auto simp: option.map_comp comp_def)
qed

subsection \<open>The hovered id and the live bodies\<close>

lemma hovered_reconcile [simp]: "hoveredPlanetId (reconcile rnd snapshot st) = hoveredPlanetId st"
proof -
  have r: "hoveredPlanetId (state_of (remove_old ids ks s)) = hoveredPlanetId s" for ids ks s
    by (induction ks arbitrary: s)
       (auto simp: removePlanet_def split: option.splits outcome.splits if_splits)
  have a: "hoveredPlanetId (state_of (add_new rnd ixs s)) = hoveredPlanetId s" for ixs s
    by (induction rnd ixs s rule: add_new.induct)
       (auto simp: createPlanet_def Let_def split: outcome.splits if_splits)
  show ?thesis
    using r[of "map celestial_body_id snapshot" "map fst (planets st)" "st \<lparr> planetsData := snapshot \<rparr>"]
    by (auto simp: reconcile_def updatePlanets_def Let_def a split: outcome.splits)
qed

text \<open>
  C10 as stated fails: planet \<open>A\<close> is hovered in a frame, then a snapshot without \<open>A\<close> is
  reconciled. Before the next frame \<open>hoveredPlanetId\<close> still is \<open>A\<close>, \<open>A\<close> is not live, and a
  click emits the selection of \<open>A\<close>.
\<close>

theorem stale_hover_counterexample:
  "hoveredPlanetId stale_hover_state = Some ''A'' \<and>
   ''A'' \<notin> live_ids stale_hover_state \<and>
   trace (onCanvasClick stale_hover_state) = trace stale_hover_state @ [PlanetSelected ''A'']"
proof -
  have h: "hoveredPlanetId stale_hover_state = Some ''A''"
    by (simp add: stale_hover_state_def run_def hovered_hovering_a)
  have "ready hovering_a" using wf_hovering_a by (simp add: wf_engine_def)
  then have l: "''A'' \<notin> live_ids stale_hover_state"
    by (simp add: stale_hover_state_def run_def live_ids_reconcile)
  show ?thesis using h l by (simp add: onCanvasClick_def truthy_def)
qed

lemma candidates_before_hover:
  "ready st \<Longrightarrow> hit_candidates (before_hover f st) = map snd (planets (animate f st))"
  by (simp add: hit_candidates_def animate_ready)

text \<open>
  C10, amended. In a well-formed state the objects handed to the ray caster in a frame are
  exactly the groups of the map of live planets; when the frame has run, \<open>hoveredPlanetId\<close>
  is \<open>null\<close> or the id of a body that is live then, and a click at that moment emits that
  id.
\<close>

theorem hover_names_body_live_at_frame:
  assumes "wf_engine st"
  shows "hit_candidates (before_hover f st) = map snd (planets (animate f st)) \<and>
         (\<forall>i. hoveredPlanetId (animate f st) = Some i \<longrightarrow>
              i \<in> live_ids (animate f st) \<and>
              trace (onCanvasClick (animate f st)) = trace (animate f st) @ [PlanetSelected i])"
proof -
  have r: "ready st" using assms by (simp add: wf_engine_def)
  have wf': "wf_engine (animate f st)" using assms by (rule wf_animate)
  have "i \<in> live_ids (animate f st) \<and>
        trace (onCanvasClick (animate f st)) = trace (animate f st) @ [PlanetSelected i]"
    if h: "hoveredPlanetId (animate f st) = Some i" for i
  proof -
    have "i \<in> live_ids (animate f st)"
      using hoveredPlanetId_animate[OF r h] by (simp add: live_ids_map_of)
    moreover have "trace (onCanvasClick (animate f st)) = trace (animate f st) @ [PlanetSelected i]"
    proof -
      have e: "onCanvasClick (animate f st) =
               (animate f st) \<lparr> trace := trace (animate f st) @ [PlanetSelected i] \<rparr>"
        using click_emits_hovered[OF wf'] h by simp
      show ?thesis by (subst e) simp
    qed
    ultimately show ?thesis by simp
  qed
  then show ?thesis using candidates_before_hover[OF r] by blast
qed

text \<open>C10, amended, at a concrete input: planet \<open>A\<close> is live and the frame hits it.\<close>

theorem hover_names_body_live_at_frame_witness:
  "wf_engine state_a \<and>
   hoveredPlanetId (animate frame_hit_a state_a) = Some ''A'' \<and>
   ''A'' \<in> live_ids (animate frame_hit_a state_a) \<and>
   trace (onCanvasClick (animate frame_hit_a state_a)) =
     trace (animate frame_hit_a state_a) @ [PlanetSelected ''A'']"
proof -
  have h: "hoveredPlanetId (animate frame_hit_a state_a) = Some ''A''"
    by (simp add: animate_def Let_def animate_entity_def hover_logic_def
      hovered_group_def intersects_def frame_hit_a_def truthy_def animate_camera_def
      animate_planets_def planets_state_a wf_state_a[unfolded wf_engine_def])
  show ?thesis
    using wf_state_a h hover_names_body_live_at_frame [OF wf_state_a, of frame_hit_a]
    by simp
qed

section \<open>Teardown\<close>










section \<open>Camera interpolation\<close>

subsection \<open>One coordinate\<close>















subsection \<open>The rounding of the examples\<close>


subsection \<open>One step of the camera\<close>





text \<open>
  A step can also leave the pose where it is before the commanded pose is reached, when
  the increment is rounded away: with the rounding of the examples at a distance of
  \<open>1/256\<close> (with JavaScript numbers at distances that are many orders smaller).
\<close>

lemma camera_stall_example:
  "camera_lerp to_grid ((0, 0, 0), (0, 0, 0)) ((1 / 256, 0, 0), (0, 0, 0)) = ((0, 0, 0), (0, 0, 0))"
  by (simp add: camera_lerp_def lerp_coordinate_def to_grid_def)



section \<open>The entity fragment program: idle and speaking\<close>

lemma pulse_speaking_bounds: "0.85 \<le> pulse 2 t \<and> pulse 2 t \<le> 1.15"
proof -
  have p: "pulse 2 t = 1 + sin (t * 8) * 0.15" by (simp add: pulse_def)
  have "- 1 \<le> sin (t * 8)" and "sin (t * 8) \<le> 1" by simp_all
  then have "0.85 \<le> 1 + sin (t * 8) * 0.15 \<and> 1 + sin (t * 8) * 0.15 \<le> (1.15::real)"
    by (simp add: field_simps del: sin_ge_minus_one sin_le_one)
  then show ?thesis by (simp only: p)
qed

lemma pulse_speaking_extremes: "pulse 2 (pi / 16) = 1.15 \<and> pulse 2 (3 * pi / 16) = 0.85"
proof -
  have "sin (pi / 16 * 8) = 1" by simp
  moreover have "sin (3 * pi / 16 * 8) = - 1"
  proof -
    have "3 * pi / 16 * 8 = 3 / 2 * pi" by simp
    then show ?thesis by (simp only: sin_3over2_pi)
  qed
  ultimately show ?thesis unfolding pulse_def by simp
qed

text \<open>
  C7. For every time, every value of the rim term, of the audio level, of the bands and of
  the noise: with \<open>uState = 0\<close> the base colour is the idle palette \<open>(0.1, 0.5, 1.0)\<close>, the
  pulse factor is 1 and the final colour is the combined colour plus the noise; with
  \<open>uState = 2\<close> the base colour is the speaking palette \<open>(0.2, 1.0, 0.5)\<close> and the pulse
  factor is \<open>1 + sin (8 t) * 0.15\<close>, which stays in \<open>[0.85, 1.15]\<close> and reaches both ends.
\<close>

theorem entity_idle_and_speaking:
  "baseColor 0 = (0.1, 0.5, 1.0) \<and>
   pulse 0 t = 1 \<and>
   finalColor 0 t fresnel audioLevel bands noise =
     vec_map (\<lambda>c. c + noise * 0.05) (unpulsed_color 0 fresnel audioLevel bands) \<and>
   baseColor 2 = (0.2, 1.0, 0.5) \<and>
   pulse 2 t = 1 + sin (8 * t) * 0.15 \<and>
   0.85 \<le> pulse 2 t \<and> pulse 2 t \<le> 1.15 \<and>
   pulse 2 (pi / 16) = 1.15 \<and> pulse 2 (3 * pi / 16) = 0.85 \<and>
   finalColor 2 t fresnel audioLevel bands noise =
     vec_map (\<lambda>c. c * pulse 2 t + noise * 0.05) (unpulsed_color 2 fresnel audioLevel bands)"
proof -
  have "pulse 2 t = 1 + sin (8 * t) * 0.15" by (simp add: pulse_def mult.commute)
  moreover have "finalColor 0 t fresnel audioLevel bands noise =
     vec_map (\<lambda>c. c + noise * 0.05) (unpulsed_color 0 fresnel audioLevel bands)"
    by (simp add: finalColor_def pulse_def)
  moreover have "finalColor 2 t fresnel audioLevel bands noise =
     vec_map (\<lambda>c. c * pulse 2 t + noise * 0.05) (unpulsed_color 2 fresnel audioLevel bands)"
    by (simp only: finalColor_def)
  moreover have "baseColor 0 = (0.1, 0.5, 1.0)" "baseColor 2 = (0.2, 1.0, 0.5)" "pulse 0 t = 1"
    by (simp_all add: baseColor_def pulse_def)
  ultimately show ?thesis
    using pulse_speaking_bounds[of t] pulse_speaking_extremes by blast
qed

end
